theory Spec2Isabelle
  imports Main "HOL-Library.Word" "HOL-Library.FSet"
begin

unbundle bit_operations_syntax

section \<open>MIDI constants (MidiSpec.h)\<close>

type_synonym u8 = "8 word"

definition kMIDIChanCmd_NoteOff :: u8 where
  "kMIDIChanCmd_NoteOff = 0x08"

definition kMIDIChanCmd_NoteOn :: u8 where
  "kMIDIChanCmd_NoteOn = 0x09"

definition kMIDIChanCmd_KeyPress :: u8 where
  "kMIDIChanCmd_KeyPress = 0x0A"

definition kMIDIChanCmd_Control :: u8 where
  "kMIDIChanCmd_Control = 0x0B"

definition kMIDIChanCmd_ProgramChange :: u8 where
  "kMIDIChanCmd_ProgramChange = 0x0C"

definition kMIDIChanCmd_ChannelPress :: u8 where
  "kMIDIChanCmd_ChannelPress = 0x0D"

definition kMIDIChanCmd_PitchWheel :: u8 where
  "kMIDIChanCmd_PitchWheel = 0x0E"

definition kMIDIControl_Sustain :: u8 where
  "kMIDIControl_Sustain = 0x40"

definition kMIDIControl_Sustain_level :: u8 where
  "kMIDIControl_Sustain_level = 64"

definition kMIDIControl_Reverb :: u8 where
  "kMIDIControl_Reverb = 0x5B"

definition kMIDISysCmdChan :: u8 where
  "kMIDISysCmdChan = 0xF0"

section \<open>The manager's fields and what it does to its collaborators\<close>

text \<open>
  The fields of class MidiManager that the decoder and the polling thread read and write.
  \<^verbatim>\<open>std::set<int>\<close> is a finite set of ints, iterated in ascending order.
\<close>

record midi_manager =
  reading :: bool
  sustain :: bool
  playNotes :: "int fset"
  sustainNotes :: "int fset"

text \<open>
  Every call the decoder makes on its two collaborators, in the order the source makes
  them: the four SynthManager methods (with the \<^verbatim>\<open>uint8_t\<close> arguments promoted to
  \<^verbatim>\<open>int\<close>) and \<^verbatim>\<open>sendToCallback\<close> with the text streamed into \<^verbatim>\<open>oss\<close>.
\<close>

datatype effect =
    SynthNoteOn int int
  | SynthNoteOff int
  | SynthSendCC int int
  | SynthReverb int
  | SendToCallback string

fun isSynthCall :: "effect \<Rightarrow> bool" where
  "isSynthCall (SendToCallback _) = False"
| "isSynthCall _ = True"

definition synthCalls :: "effect list \<Rightarrow> effect list" where
  "synthCalls es = filter isSynthCall es"

text \<open>The constructor's member initialisers: \<^verbatim>\<open>reading(false), sustain(false)\<close>, both sets empty.\<close>

definition MidiManager_init :: midi_manager where
  "MidiManager_init =
     \<lparr>reading = False, sustain = False, playNotes = {||}, sustainNotes = {||}\<rparr>"

subsection \<open>Decimal text of \<^verbatim>\<open>(int)x\<close> as the output stream writes it\<close>

definition digit_char :: "nat \<Rightarrow> char" where
  "digit_char d = ''0123456789'' ! d"

function show_nat :: "nat \<Rightarrow> string" where
  "show_nat n = (if n < 10 then [digit_char n] else show_nat (n div 10) @ [digit_char (n mod 10)])"
  by pat_completeness auto
termination
  by (relation "measure id") auto

definition show_u8 :: "u8 \<Rightarrow> string" where
  "show_u8 b = show_nat (unat b)"

section \<open>MidiManager::parseMidiCmdControl\<close>

text \<open>
  The pedal-up loop visits \<^verbatim>\<open>sustainNotes\<close> in ascending order and stops every note
  that \<^verbatim>\<open>playNotes.find\<close> does not find.
\<close>

definition parseMidiCmdControl :: "midi_manager \<Rightarrow> u8 \<Rightarrow> u8 \<Rightarrow> midi_manager \<times> effect list" where
  "parseMidiCmdControl m controller val =
     (if controller = kMIDIControl_Sustain then
        (if kMIDIControl_Sustain_level \<le> val then
           (m\<lparr>sustain := True,
              sustainNotes := (if playNotes m \<noteq> {||} then sustainNotes m |\<union>| playNotes m
                               else sustainNotes m)\<rparr>,
            [SendToCallback (''Sustain ON: level: '' @ show_u8 val)])
         else
           (m\<lparr>sustain := False, sustainNotes := {||}\<rparr>,
            SendToCallback (''Sustain OFF: level: '' @ show_u8 val) #
            map SynthNoteOff
              (filter (\<lambda>n. n |\<notin>| playNotes m) (sorted_list_of_fset (sustainNotes m)))))
      else if controller = kMIDIControl_Reverb then
        (m, [SendToCallback (''Reverb: level: '' @ show_u8 val), SynthReverb (uint val)])
      else
        (m, [SendToCallback (''Unparsed command: controller: '' @ show_u8 controller
                              @ '' value: '' @ show_u8 val),
             SynthSendCC (uint controller) (uint val)]))"

section \<open>MidiManager::parseMidiData\<close>

text \<open>The scrutinee of the switch: \<^verbatim>\<open>(status & kMIDISysCmdChan) >> 4\<close>.\<close>

definition chanCmd :: "u8 \<Rightarrow> u8" where
  "chanCmd status = drop_bit 4 (status AND kMIDISysCmdChan)"

text \<open>
  The text that the Key Press, Program Change, Channel Press, Pitch Wheel and default
  branches stream into \<^verbatim>\<open>oss\<close>; they differ in the label only.
\<close>

definition traceText :: "string \<Rightarrow> u8 \<Rightarrow> u8 \<Rightarrow> u8 \<Rightarrow> string" where
  "traceText label note velocity status =
     label @ show_u8 note @ '' vel: '' @ show_u8 velocity @ '' status: '' @ show_u8 status"

text \<open>
  \<^verbatim>\<open>data\<close> holds the \<^verbatim>\<open>numBytes\<close> bytes the caller passes, so \<^verbatim>\<open>numBytes\<close> is its
  length and the three reads happen only when they are in range.
\<close>

definition parseMidiData :: "midi_manager \<Rightarrow> u8 list \<Rightarrow> midi_manager \<times> effect list" where
  "parseMidiData m data =
     (if length data < 3 then (m, [])
      else
        let status = (data ! 0) AND 0xFF;
            note = (data ! 1) AND 0xFF;
            velocity = (data ! 2) AND 0xFF;
            cmd = chanCmd status
        in
          if cmd = kMIDIChanCmd_NoteOff then
            (m\<lparr>sustainNotes := (if \<not> sustain m then sustainNotes m |-| {|uint note|}
                                else sustainNotes m),
               playNotes := playNotes m |-| {|uint note|}\<rparr>,
             SendToCallback (''Note OFF: '' @ show_u8 note) #
             (if \<not> sustain m then [SynthNoteOff (uint note)] else []))
          else if cmd = kMIDIChanCmd_NoteOn then
            (m\<lparr>sustainNotes := (if sustain m then finsert (uint note) (sustainNotes m)
                                else sustainNotes m),
               playNotes := finsert (uint note) (playNotes m)\<rparr>,
             [SendToCallback (''Note ON: '' @ show_u8 note @ '' vel: '' @ show_u8 velocity),
              SynthNoteOn (uint note) (uint velocity)])
          else if cmd = kMIDIChanCmd_Control then
            parseMidiCmdControl m note velocity
          else if cmd = kMIDIChanCmd_KeyPress then
            (m, [SendToCallback (traceText ''Key Press: '' note velocity status)])
          else if cmd = kMIDIChanCmd_ProgramChange then
            (m, [SendToCallback (traceText ''Program Change: '' note velocity status)])
          else if cmd = kMIDIChanCmd_ChannelPress then
            (m, [SendToCallback (traceText ''Channel Press: '' note velocity status)])
          else if cmd = kMIDIChanCmd_PitchWheel then
            (m, [SendToCallback (traceText ''Pitch Wheel: '' note velocity status)])
          else
            (m, [SendToCallback (traceText ''Unparsed: '' note velocity status)]))"

section \<open>The polling thread (readThreadRoutine)\<close>

text \<open>
  One answer of \<^verbatim>\<open>AMidiOutputPort_receive\<close>: its return value and what it left in the
  out-parameters. \<^verbatim>\<open>incomingMessage\<close> is the whole receive buffer of
  kMidiMaxBytesToReceive = 128 bytes, of which the first \<^verbatim>\<open>numBytesReceived\<close> belong to
  the message. \<^verbatim>\<open>size_t\<close> is unsigned, so the test \<^verbatim>\<open>numBytesReceived >= 0\<close> of the
  source always holds.
\<close>

record recv =
  numMessagesReceived :: int
  opcode :: int
  incomingMessage :: "u8 list"
  numBytesReceived :: nat

text \<open>The opcode of a data message in the Android NDK header amidi/AMidi.h.\<close>

definition AMIDI_OPCODE_DATA :: int where
  "AMIDI_OPCODE_DATA = 1"

text \<open>The condition under which an iteration calls \<^verbatim>\<open>parseMidiData\<close>.\<close>

definition handsToDecoder :: "recv \<Rightarrow> bool" where
  "handsToDecoder r \<longleftrightarrow>
     numMessagesReceived r > 0 \<and> numBytesReceived r \<ge> 0 \<and>
     opcode r = AMIDI_OPCODE_DATA \<and>
     (incomingMessage r ! 0) AND kMIDISysCmdChan \<noteq> kMIDISysCmdChan"

text \<open>The body of the while loop for one answer of the transport (the sleep is not modelled).\<close>

definition readStep :: "midi_manager \<Rightarrow> recv \<Rightarrow> midi_manager \<times> effect list" where
  "readStep m r =
     (let m1 = (if numMessagesReceived r < 0 then m\<lparr>reading := False\<rparr> else m)
      in if handsToDecoder r
         then parseMidiData m1 (take (numBytesReceived r) (incomingMessage r))
         else (m1, []))"

text \<open>
  The while loop, run against the successive answers of the transport. It tests
  \<^verbatim>\<open>reading\<close> before every iteration; when the list of answers is used up the
  observation ends with the loop still running. The only other writer of
  \<^verbatim>\<open>reading\<close>, the destructor on the owner's thread, also sets it to false and is
  left out.
\<close>

fun readLoop :: "midi_manager \<Rightarrow> recv list \<Rightarrow> midi_manager \<times> effect list" where
  "readLoop m [] = (m, [])"
| "readLoop m (r # rs) =
     (if reading m then
        (case readStep m r of (m1, es) \<Rightarrow>
           (case readLoop m1 rs of (m2, es') \<Rightarrow> (m2, es @ es')))
      else (m, []))"

definition readThreadRoutine :: "midi_manager \<Rightarrow> recv list \<Rightarrow> midi_manager \<times> effect list" where
  "readThreadRoutine m rs = readLoop (m\<lparr>reading := True\<rparr>) rs"

text \<open>The decoder applied to a sequence of frames, one after the other.\<close>

fun decodeAll :: "midi_manager \<Rightarrow> u8 list list \<Rightarrow> midi_manager \<times> effect list" where
  "decodeAll m [] = (m, [])"
| "decodeAll m (d # ds) =
     (case parseMidiData m d of (m1, es) \<Rightarrow>
        (case decodeAll m1 ds of (m2, es') \<Rightarrow> (m2, es @ es')))"

text \<open>
  The relation between the sustain flag and the two note sets that every step of the
  decoder keeps: with the pedal down every playing note is also sustained, with the pedal
  up nothing is sustained.
\<close>

definition sustainInv :: "midi_manager \<Rightarrow> bool" where
  "sustainInv m \<longleftrightarrow>
     (sustain m \<longrightarrow> playNotes m |\<subseteq>| sustainNotes m) \<and>
     (\<not> sustain m \<longrightarrow> sustainNotes m = {||})"

section \<open>Auxiliary facts\<close>

lemmas midi_consts =
  kMIDIChanCmd_NoteOff_def kMIDIChanCmd_NoteOn_def kMIDIChanCmd_KeyPress_def
  kMIDIChanCmd_Control_def kMIDIChanCmd_ProgramChange_def kMIDIChanCmd_ChannelPress_def
  kMIDIChanCmd_PitchWheel_def kMIDIControl_Sustain_def kMIDIControl_Sustain_level_def
  kMIDIControl_Reverb_def kMIDISysCmdChan_def

lemma u8_and_ff: "(x :: u8) AND 0xFF = x"
proof -
  have "(0xFF :: u8) = - 1" by simp
  then show ?thesis by (simp only: and.right_neutral word_bw_comms and.comm_neutral)
qed

lemma filter_sorted_list_of_fset:
  "filter P (sorted_list_of_fset S) = sorted_list_of_fset (ffilter P S)"
proof -
  have "sorted (filter P (sorted_list_of_set (fset S)))"
    by (rule sorted_wrt_filter) simp
  moreover have "distinct (filter P (sorted_list_of_set (fset S)))" by simp
  moreover have "set (filter P (sorted_list_of_set (fset S))) = set (sorted_list_of_set (fset (ffilter P S)))"
    by auto
  ultimately have "filter P (sorted_list_of_set (fset S)) = sorted_list_of_set (fset (ffilter P S))"
    by (intro sorted_distinct_set_unique) simp_all
  then show ?thesis by (simp add: sorted_list_of_fset.rep_eq)
qed

lemma fminus_as_ffilter: "S |-| P = ffilter (\<lambda>n. n |\<notin>| P) S"
  by auto

lemma count_list_distinct: "distinct xs \<Longrightarrow> count_list xs x = (if x \<in> set xs then 1 else 0)"
  by (induction xs) auto

lemma distinct_sorted_list_of_fset: "distinct (sorted_list_of_fset S)"
  by (simp add: sorted_list_of_fset.rep_eq)

lemma parseMidiData_Control:
  "3 \<le> length data \<Longrightarrow> chanCmd (data ! 0) = kMIDIChanCmd_Control \<Longrightarrow>
   parseMidiData m data = parseMidiCmdControl m (data ! 1) (data ! 2)"
  by (simp add: parseMidiData_def u8_and_ff Let_def midi_consts)

lemma pedal_up_step:
  "val < kMIDIControl_Sustain_level \<Longrightarrow>
   parseMidiCmdControl m kMIDIControl_Sustain val =
     (m\<lparr>sustain := False, sustainNotes := {||}\<rparr>,
      SendToCallback (''Sustain OFF: level: '' @ show_u8 val) #
      map SynthNoteOff (sorted_list_of_fset (sustainNotes m |-| playNotes m)))"
  by (simp add: parseMidiCmdControl_def filter_sorted_list_of_fset fminus_as_ffilter not_le)

lemma pedal_down_step:
  "kMIDIControl_Sustain_level \<le> val \<Longrightarrow>
   parseMidiCmdControl m kMIDIControl_Sustain val =
     (m\<lparr>sustain := True, sustainNotes := sustainNotes m |\<union>| playNotes m\<rparr>,
      [SendToCallback (''Sustain ON: level: '' @ show_u8 val)])"
  by (simp add: parseMidiCmdControl_def)

lemma synthCalls_map_SynthNoteOff: "synthCalls (map SynthNoteOff ns) = map SynthNoteOff ns"
  by (induction ns) (simp_all add: synthCalls_def)

lemma count_list_SynthNoteOff:
  "count_list (map SynthNoteOff ns) (SynthNoteOff n) = count_list ns n"
  by (induction ns) simp_all

lemma sorted_list_of_fset_fempty: "sorted_list_of_fset {||} = []"
  by (simp add: sorted_list_of_fset.rep_eq)

lemma sorted_list_of_fset_finsert:
  "sorted_list_of_fset (finsert x S) = insort x (sorted_list_of_fset (S |-| {|x|}))"
  by (simp add: sorted_list_of_fset.rep_eq sorted_list_of_set_insert_remove)

lemmas sorted_list_of_fset_eval = sorted_list_of_fset_fempty sorted_list_of_fset_finsert

subsection \<open>The invariant is kept\<close>

lemma sustainInv_init: "sustainInv MidiManager_init"
  by (simp add: sustainInv_def MidiManager_init_def)

lemma sustainInv_reading: "sustainInv (m\<lparr>reading := b\<rparr>) = sustainInv m"
  by (simp add: sustainInv_def)

lemma sustainInv_parseMidiCmdControl:
  "sustainInv m \<Longrightarrow> sustainInv (fst (parseMidiCmdControl m c v))"
  by (auto simp: sustainInv_def parseMidiCmdControl_def)

lemma sustainInv_parseMidiData:
  "sustainInv m \<Longrightarrow> sustainInv (fst (parseMidiData m data))"
  apply (simp add: parseMidiData_def Let_def sustainInv_parseMidiCmdControl)
  apply (auto simp: sustainInv_def)
  done

lemma fst_decodeAll_Cons:
  "fst (decodeAll m (d # ds)) = fst (decodeAll (fst (parseMidiData m d)) ds)"
  by (simp add: case_prod_beta)

lemma fst_readLoop_Cons:
  "fst (readLoop m (r # rs)) = (if reading m then fst (readLoop (fst (readStep m r)) rs) else m)"
  by (simp add: case_prod_beta)

lemma sustainInv_decodeAll:
  "sustainInv m \<Longrightarrow> sustainInv (fst (decodeAll m frames))"
proof (induction frames arbitrary: m)
  case Nil
  then show ?case by simp
next
  case (Cons d ds)
  from Cons.prems have "sustainInv (fst (parseMidiData m d))"
    by (rule sustainInv_parseMidiData)
  then have "sustainInv (fst (decodeAll (fst (parseMidiData m d)) ds))"
    by (rule Cons.IH)
  then show ?case by (simp only: fst_decodeAll_Cons)
qed

lemma sustainInv_readStep:
  "sustainInv m \<Longrightarrow> sustainInv (fst (readStep m r))"
  by (simp add: readStep_def Let_def sustainInv_parseMidiData sustainInv_reading)

lemma sustainInv_readLoop:
  "sustainInv m \<Longrightarrow> sustainInv (fst (readLoop m rs))"
proof (induction rs arbitrary: m)
  case Nil
  then show ?case by simp
next
  case (Cons r rs)
  from Cons.prems have "sustainInv (fst (readStep m r))"
    by (rule sustainInv_readStep)
  then have "sustainInv (fst (readLoop (fst (readStep m r)) rs))"
    by (rule Cons.IH)
  with Cons.prems show ?case by (simp only: fst_readLoop_Cons split: if_splits) simp
qed

lemma sustainInv_readThreadRoutine:
  "sustainInv m \<Longrightarrow> sustainInv (fst (readThreadRoutine m rs))"
  by (simp add: readThreadRoutine_def sustainInv_readLoop sustainInv_reading)

section \<open>Short frames\<close>

text \<open>
  C7. A buffer of fewer than three bytes is dropped by the decoder: it calls neither the
  synthesizer nor the callback (no trace), and the sustain flag, the playing notes and the
  sustained notes (indeed the whole manager) are exactly as before.
\<close>

theorem short_frame_dropped:
  "length data < 3 \<Longrightarrow> parseMidiData m data = (m, [])"
  by (simp add: parseMidiData_def)

theorem short_frame_dropped_witness:
  "length [0x90 :: u8, 60] < 3 \<and>
   parseMidiData \<lparr>reading = True, sustain = True, playNotes = {|60|}, sustainNotes = {|60, 62|}\<rparr>
     [0x90, 60]
   = (\<lparr>reading = True, sustain = True, playNotes = {|60|}, sustainNotes = {|60, 62|}\<rparr>, [])"
  using short_frame_dropped [of "[0x90, 60]"
    "\<lparr>reading = True, sustain = True, playNotes = {|60|}, sustainNotes = {|60, 62|}\<rparr>"]
  by simp

section \<open>The sustain pedal\<close>

text \<open>
  C1. Pedal up. From any state, a Control frame with controller 64 and a value below 64
  sets the sustain flag to false, empties the sustained notes and leaves the playing notes
  as they are. The synthesizer calls it makes are exactly one noteOff for each note that
  was sustained and is not playing (in ascending order) and nothing else, so no playing
  note is stopped.
\<close>

theorem pedal_up_reconciliation:
  assumes len: "3 \<le> length data"
    and cmd: "chanCmd (data ! 0) = kMIDIChanCmd_Control"
    and ctl: "data ! 1 = kMIDIControl_Sustain"
    and up: "data ! 2 < kMIDIControl_Sustain_level"
  shows "case parseMidiData m data of (m', es) \<Rightarrow>
           sustain m' = False \<and> sustainNotes m' = {||} \<and> playNotes m' = playNotes m \<and>
           synthCalls es = map SynthNoteOff (sorted_list_of_fset (sustainNotes m |-| playNotes m)) \<and>
           (\<forall>n. count_list es (SynthNoteOff n) =
                  (if n |\<in>| sustainNotes m \<and> n |\<notin>| playNotes m then 1 else 0))"
proof -
  let ?stop = "sorted_list_of_fset (sustainNotes m |-| playNotes m)"
  have run: "parseMidiData m data =
      (m\<lparr>sustain := False, sustainNotes := {||}\<rparr>,
       SendToCallback (''Sustain OFF: level: '' @ show_u8 (data ! 2)) # map SynthNoteOff ?stop)"
    using parseMidiData_Control [OF len cmd] pedal_up_step [OF up] ctl by simp
  have calls: "synthCalls (SendToCallback t # map SynthNoteOff ?stop) = map SynthNoteOff ?stop" for t
    using synthCalls_map_SynthNoteOff [of ?stop] by (simp add: synthCalls_def)
  have once: "count_list (SendToCallback t # map SynthNoteOff ?stop) (SynthNoteOff n) =
      (if n |\<in>| sustainNotes m \<and> n |\<notin>| playNotes m then 1 else 0)" for t n
    using count_list_distinct [OF distinct_sorted_list_of_fset, of "sustainNotes m |-| playNotes m" n]
    by (simp add: count_list_SynthNoteOff)
  show ?thesis
    unfolding run by (simp only: prod.case calls once) simp
qed


theorem pedal_up_reconciliation_witness:
  "3 \<le> length [0xB3 :: u8, 64, 10] \<and>
   chanCmd ([0xB3 :: u8, 64, 10] ! 0) = kMIDIChanCmd_Control \<and>
   [0xB3 :: u8, 64, 10] ! 1 = kMIDIControl_Sustain \<and>
   [0xB3 :: u8, 64, 10] ! 2 < kMIDIControl_Sustain_level \<and>
   (case parseMidiData
       \<lparr>reading = True, sustain = True, playNotes = {|60|}, sustainNotes = {|60, 62, 61|}\<rparr>
       [0xB3, 64, 10] of (m', es) \<Rightarrow>
     sustain m' = False \<and> sustainNotes m' = {||} \<and> playNotes m' = {|60|} \<and>
     synthCalls es = [SynthNoteOff 61, SynthNoteOff 62] \<and>
     count_list es (SynthNoteOff 60) = 0 \<and> count_list es (SynthNoteOff 61) = 1 \<and>
     count_list es (SynthNoteOff 62) = 1)"
proof -
  let ?m = "\<lparr>reading = True, sustain = True, playNotes = {|60|}, sustainNotes = {|60, 62, 61|}\<rparr>"
  let ?d = "[0xB3 :: u8, 64, 10]"
  have h1: "3 \<le> length ?d" by simp
  have h2: "chanCmd (?d ! 0) = kMIDIChanCmd_Control" by (simp add: chanCmd_def midi_consts)
  have h3: "?d ! 1 = kMIDIControl_Sustain" by (simp add: midi_consts)
  have h4: "?d ! 2 < kMIDIControl_Sustain_level" by (simp add: midi_consts)
  have "case parseMidiData ?m ?d of (m', es) \<Rightarrow>
     sustain m' = False \<and> sustainNotes m' = {||} \<and> playNotes m' = {|60|} \<and>
     synthCalls es = [SynthNoteOff 61, SynthNoteOff 62] \<and>
     count_list es (SynthNoteOff 60) = 0 \<and> count_list es (SynthNoteOff 61) = 1 \<and>
     count_list es (SynthNoteOff 62) = 1"
    using pedal_up_reconciliation [OF h1 h2 h3 h4, of ?m]
    by (simp add: sorted_list_of_fset_eval split: prod.splits)
  with h1 h2 h3 h4 show ?thesis by blast
qed

text \<open>
  C2. Pedal down. From any state, a Control frame with controller 64 and a value of 64 or
  more sets the sustain flag to true and makes the sustained notes the union of the
  former sustained notes and the playing notes; the playing notes are unchanged and the
  synthesizer is not called at all (no noteOn, no noteOff).
\<close>

theorem pedal_down_catch:
  assumes len: "3 \<le> length data"
    and cmd: "chanCmd (data ! 0) = kMIDIChanCmd_Control"
    and ctl: "data ! 1 = kMIDIControl_Sustain"
    and down: "kMIDIControl_Sustain_level \<le> data ! 2"
  shows "case parseMidiData m data of (m', es) \<Rightarrow>
           sustain m' = True \<and> sustainNotes m' = sustainNotes m |\<union>| playNotes m \<and>
           playNotes m' = playNotes m \<and> synthCalls es = []"
  using parseMidiData_Control [OF len cmd, of m] pedal_down_step [OF down, of m] ctl
  by (simp add: synthCalls_def)

theorem pedal_down_catch_witness:
  "3 \<le> length [0xB0 :: u8, 64, 127] \<and>
   chanCmd ([0xB0 :: u8, 64, 127] ! 0) = kMIDIChanCmd_Control \<and>
   [0xB0 :: u8, 64, 127] ! 1 = kMIDIControl_Sustain \<and>
   kMIDIControl_Sustain_level \<le> [0xB0 :: u8, 64, 127] ! 2 \<and>
   (case parseMidiData
       \<lparr>reading = True, sustain = False, playNotes = {|60, 64|}, sustainNotes = {|67|}\<rparr>
       [0xB0, 64, 127] of (m', es) \<Rightarrow>
     sustain m' = True \<and> sustainNotes m' = {|60, 64, 67|} \<and> playNotes m' = {|60, 64|} \<and>
     synthCalls es = [])"
proof -
  let ?m = "\<lparr>reading = True, sustain = False, playNotes = {|60, 64|}, sustainNotes = {|67|}\<rparr>"
  let ?d = "[0xB0 :: u8, 64, 127]"
  have h1: "3 \<le> length ?d" by simp
  have h2: "chanCmd (?d ! 0) = kMIDIChanCmd_Control" by (simp add: chanCmd_def midi_consts)
  have h3: "?d ! 1 = kMIDIControl_Sustain" by (simp add: midi_consts)
  have h4: "kMIDIControl_Sustain_level \<le> ?d ! 2" by (simp add: midi_consts)
  have "case parseMidiData ?m ?d of (m', es) \<Rightarrow>
     sustain m' = True \<and> sustainNotes m' = {|60, 64, 67|} \<and> playNotes m' = {|60, 64|} \<and>
     synthCalls es = []"
    using pedal_down_catch [OF h1 h2 h3 h4, of ?m]
    by (auto split: prod.splits)
  with h1 h2 h3 h4 show ?thesis by blast
qed

text \<open>
  C9. Pedal down twice. From any state, after two consecutive pedal-down Control frames
  (controller 64, value 64 or more; channel and value may differ) the sustain flag, the
  sustained notes and the playing notes, and with them the whole manager, are what they
  were after the first frame, and the second frame makes no synthesizer call.
\<close>

theorem pedal_down_idempotent:
  assumes len1: "3 \<le> length d1"
    and cmd1: "chanCmd (d1 ! 0) = kMIDIChanCmd_Control"
    and ctl1: "d1 ! 1 = kMIDIControl_Sustain"
    and down1: "kMIDIControl_Sustain_level \<le> d1 ! 2"
    and len2: "3 \<le> length d2"
    and cmd2: "chanCmd (d2 ! 0) = kMIDIChanCmd_Control"
    and ctl2: "d2 ! 1 = kMIDIControl_Sustain"
    and down2: "kMIDIControl_Sustain_level \<le> d2 ! 2"
  shows "case parseMidiData m d1 of (m1, es1) \<Rightarrow>
           (case parseMidiData m1 d2 of (m2, es2) \<Rightarrow>
              sustain m2 = sustain m1 \<and> sustainNotes m2 = sustainNotes m1 \<and>
              playNotes m2 = playNotes m1 \<and> m2 = m1 \<and> synthCalls es2 = [])"
proof -
  let ?m1 = "m\<lparr>sustain := True, sustainNotes := sustainNotes m |\<union>| playNotes m\<rparr>"
  have first: "parseMidiData m d1 =
      (?m1, [SendToCallback (''Sustain ON: level: '' @ show_u8 (d1 ! 2))])"
    using parseMidiData_Control [OF len1 cmd1, of m] pedal_down_step [OF down1, of m] ctl1
    by simp
  have second: "parseMidiData ?m1 d2 =
      (?m1\<lparr>sustain := True, sustainNotes := sustainNotes ?m1 |\<union>| playNotes ?m1\<rparr>,
       [SendToCallback (''Sustain ON: level: '' @ show_u8 (d2 ! 2))])"
    using parseMidiData_Control [OF len2 cmd2, of ?m1] pedal_down_step [OF down2, of ?m1] ctl2
    by simp
  have same: "?m1\<lparr>sustain := True, sustainNotes := sustainNotes ?m1 |\<union>| playNotes ?m1\<rparr> = ?m1"
    by (simp add: sup_assoc)
  show ?thesis
    by (simp only: first second same prod.case) (simp add: synthCalls_def)
qed

theorem pedal_down_idempotent_witness:
  "3 \<le> length [0xB0 :: u8, 64, 127] \<and>
   chanCmd ([0xB0 :: u8, 64, 127] ! 0) = kMIDIChanCmd_Control \<and>
   [0xB0 :: u8, 64, 127] ! 1 = kMIDIControl_Sustain \<and>
   kMIDIControl_Sustain_level \<le> [0xB0 :: u8, 64, 127] ! 2 \<and>
   3 \<le> length [0xB5 :: u8, 64, 64] \<and>
   chanCmd ([0xB5 :: u8, 64, 64] ! 0) = kMIDIChanCmd_Control \<and>
   [0xB5 :: u8, 64, 64] ! 1 = kMIDIControl_Sustain \<and>
   kMIDIControl_Sustain_level \<le> [0xB5 :: u8, 64, 64] ! 2 \<and>
   (case parseMidiData
       \<lparr>reading = True, sustain = False, playNotes = {|60|}, sustainNotes = {|67|}\<rparr>
       [0xB0, 64, 127] of (m1, es1) \<Rightarrow>
      (case parseMidiData m1 [0xB5, 64, 64] of (m2, es2) \<Rightarrow>
         m1 = \<lparr>reading = True, sustain = True, playNotes = {|60|}, sustainNotes = {|67, 60|}\<rparr> \<and>
         m2 = m1 \<and> synthCalls es2 = []))"
proof -
  let ?m = "\<lparr>reading = True, sustain = False, playNotes = {|60|}, sustainNotes = {|67|}\<rparr>"
  let ?d1 = "[0xB0 :: u8, 64, 127]"
  let ?d2 = "[0xB5 :: u8, 64, 64]"
  have a1: "3 \<le> length ?d1" by simp
  have a2: "chanCmd (?d1 ! 0) = kMIDIChanCmd_Control" by (simp add: chanCmd_def midi_consts)
  have a3: "?d1 ! 1 = kMIDIControl_Sustain" by (simp add: midi_consts)
  have a4: "kMIDIControl_Sustain_level \<le> ?d1 ! 2" by (simp add: midi_consts)
  have b1: "3 \<le> length ?d2" by simp
  have b2: "chanCmd (?d2 ! 0) = kMIDIChanCmd_Control" by (simp add: chanCmd_def midi_consts)
  have b3: "?d2 ! 1 = kMIDIControl_Sustain" by (simp add: midi_consts)
  have b4: "kMIDIControl_Sustain_level \<le> ?d2 ! 2" by (simp add: midi_consts)
  have first: "fst (parseMidiData ?m ?d1) =
      \<lparr>reading = True, sustain = True, playNotes = {|60|}, sustainNotes = {|67, 60|}\<rparr>"
    using parseMidiData_Control [OF a1 a2, of ?m] pedal_down_step [OF a4, of ?m] a3 by auto
  have "case parseMidiData ?m ?d1 of (m1, es1) \<Rightarrow>
      (case parseMidiData m1 ?d2 of (m2, es2) \<Rightarrow>
         m1 = \<lparr>reading = True, sustain = True, playNotes = {|60|}, sustainNotes = {|67, 60|}\<rparr> \<and>
         m2 = m1 \<and> synthCalls es2 = [])"
    using pedal_down_idempotent [OF a1 a2 a3 a4 b1 b2 b3 b4, of ?m] first
    by (auto split: prod.splits)
  with a1 a2 a3 a4 b1 b2 b3 b4 show ?thesis by blast
qed

lemma parseMidiData_NoteOn:
  "3 \<le> length data \<Longrightarrow> chanCmd (data ! 0) = kMIDIChanCmd_NoteOn \<Longrightarrow>
   parseMidiData m data =
     (m\<lparr>sustainNotes := (if sustain m then finsert (uint (data ! 1)) (sustainNotes m)
                          else sustainNotes m),
        playNotes := finsert (uint (data ! 1)) (playNotes m)\<rparr>,
      [SendToCallback (''Note ON: '' @ show_u8 (data ! 1) @ '' vel: '' @ show_u8 (data ! 2)),
       SynthNoteOn (uint (data ! 1)) (uint (data ! 2))])"
  by (simp add: parseMidiData_def u8_and_ff Let_def midi_consts)

lemma parseMidiData_NoteOff:
  "3 \<le> length data \<Longrightarrow> chanCmd (data ! 0) = kMIDIChanCmd_NoteOff \<Longrightarrow>
   parseMidiData m data =
     (m\<lparr>sustainNotes := (if \<not> sustain m then sustainNotes m |-| {|uint (data ! 1)|}
                          else sustainNotes m),
        playNotes := playNotes m |-| {|uint (data ! 1)|}\<rparr>,
      SendToCallback (''Note OFF: '' @ show_u8 (data ! 1)) #
      (if \<not> sustain m then [SynthNoteOff (uint (data ! 1))] else []))"
  by (simp add: parseMidiData_def u8_and_ff Let_def midi_consts)

text \<open>
  C10. Every NoteOn frame, whatever its velocity (0 included), inserts the note into the
  playing notes, inserts it into the sustained notes when the sustain flag is true, keeps
  the flag, and makes exactly one synthesizer call, noteOn(note, velocity). No noteOff is
  issued and no note leaves either set: both sets only grow.
\<close>

theorem noteOn_always_starts:
  assumes len: "3 \<le> length data"
    and cmd: "chanCmd (data ! 0) = kMIDIChanCmd_NoteOn"
  shows "case parseMidiData m data of (m', es) \<Rightarrow>
           playNotes m' = finsert (uint (data ! 1)) (playNotes m) \<and>
           sustainNotes m' = (if sustain m then finsert (uint (data ! 1)) (sustainNotes m)
                              else sustainNotes m) \<and>
           sustain m' = sustain m \<and>
           synthCalls es = [SynthNoteOn (uint (data ! 1)) (uint (data ! 2))] \<and>
           playNotes m |\<subseteq>| playNotes m' \<and> sustainNotes m |\<subseteq>| sustainNotes m'"
  using parseMidiData_NoteOn [OF len cmd, of m]
  by (auto simp: synthCalls_def)

theorem noteOn_always_starts_witness:
  "3 \<le> length [0x92 :: u8, 60, 0] \<and>
   chanCmd ([0x92 :: u8, 60, 0] ! 0) = kMIDIChanCmd_NoteOn \<and>
   (case parseMidiData
       \<lparr>reading = True, sustain = True, playNotes = {|60, 62|}, sustainNotes = {|62|}\<rparr>
       [0x92, 60, 0] of (m', es) \<Rightarrow>
     playNotes m' = {|60, 62|} \<and> sustainNotes m' = {|60, 62|} \<and> sustain m' = True \<and>
     synthCalls es = [SynthNoteOn 60 0])"
proof -
  let ?m = "\<lparr>reading = True, sustain = True, playNotes = {|60, 62|}, sustainNotes = {|62|}\<rparr>"
  let ?d = "[0x92 :: u8, 60, 0]"
  have h1: "3 \<le> length ?d" by simp
  have h2: "chanCmd (?d ! 0) = kMIDIChanCmd_NoteOn" by (simp add: chanCmd_def midi_consts)
  have "case parseMidiData ?m ?d of (m', es) \<Rightarrow>
     playNotes m' = {|60, 62|} \<and> sustainNotes m' = {|60, 62|} \<and> sustain m' = True \<and>
     synthCalls es = [SynthNoteOn 60 0]"
    using noteOn_always_starts [OF h1 h2, of ?m]
    by (auto split: prod.splits)
  with h1 h2 show ?thesis by blast
qed

section \<open>Evaluation on concrete frames\<close>

lemmas decoder_eval =
  parseMidiData_def parseMidiCmdControl_def chanCmd_def midi_consts MidiManager_init_def
  Let_def readThreadRoutine_def readStep_def handsToDecoder_def AMIDI_OPCODE_DATA_def

section \<open>NoteOff\<close>

text \<open>
  C3. NoteOff for a note that is playing. The note leaves the playing notes and the flag
  is kept. With the pedal up the synthesizer gets exactly one call, noteOff(note), and the
  note is erased from the sustained notes. With the pedal down the synthesizer is not
  called and the sustained notes are left as they are; and in every state that the decoder
  or the polling thread can reach from the initial one the note was caught before, so it
  is a member of the sustained notes afterwards.
\<close>

theorem noteOff_rule:
  assumes len: "3 \<le> length data"
    and cmd: "chanCmd (data ! 0) = kMIDIChanCmd_NoteOff"
    and held: "uint (data ! 1) |\<in>| playNotes m"
  shows "case parseMidiData m data of (m', es) \<Rightarrow>
           playNotes m' = playNotes m |-| {|uint (data ! 1)|} \<and>
           uint (data ! 1) |\<notin>| playNotes m' \<and>
           sustain m' = sustain m \<and>
           (\<not> sustain m \<longrightarrow>
              synthCalls es = [SynthNoteOff (uint (data ! 1))] \<and>
              sustainNotes m' = sustainNotes m |-| {|uint (data ! 1)|} \<and>
              uint (data ! 1) |\<notin>| sustainNotes m') \<and>
           (sustain m \<longrightarrow>
              synthCalls es = [] \<and> sustainNotes m' = sustainNotes m \<and>
              (m = fst (decodeAll MidiManager_init frames) \<or>
               m = fst (readThreadRoutine MidiManager_init rs)
                 \<longrightarrow> uint (data ! 1) |\<in>| sustainNotes m'))"
proof -
  have caught: "uint (data ! 1) |\<in>| sustainNotes m"
    if "sustain m" and "m = fst (decodeAll MidiManager_init frames) \<or>
                        m = fst (readThreadRoutine MidiManager_init rs)"
  proof -
    from that(2) have "sustainInv m"
      using sustainInv_decodeAll [OF sustainInv_init, of frames]
        sustainInv_readThreadRoutine [OF sustainInv_init, of rs]
      by auto
    with that(1) held show ?thesis
      by (auto simp: sustainInv_def)
  qed
  show ?thesis
    using parseMidiData_NoteOff [OF len cmd, of m] caught
    by (auto simp: synthCalls_def)
qed

theorem noteOff_rule_witness:
  "(3 \<le> length [0x81 :: u8, 60, 0] \<and>
    chanCmd ([0x81 :: u8, 60, 0] ! 0) = kMIDIChanCmd_NoteOff \<and>
    uint ([0x81 :: u8, 60, 0] ! 1)
      |\<in>| playNotes \<lparr>reading = True, sustain = False, playNotes = {|60, 64|}, sustainNotes = {||}\<rparr> \<and>
    \<not> sustain \<lparr>reading = True, sustain = False, playNotes = {|60, 64|}, sustainNotes = {||}\<rparr> \<and>
    (case parseMidiData
        \<lparr>reading = True, sustain = False, playNotes = {|60, 64|}, sustainNotes = {||}\<rparr>
        [0x81, 60, 0] of (m', es) \<Rightarrow>
       playNotes m' = {|64|} \<and> sustainNotes m' = {||} \<and> synthCalls es = [SynthNoteOff 60])) \<and>
   (uint ([0x81 :: u8, 60, 0] ! 1)
      |\<in>| playNotes (fst (decodeAll MidiManager_init [[0x90, 60, 100], [0xB0, 64, 127]])) \<and>
    sustain (fst (decodeAll MidiManager_init [[0x90, 60, 100], [0xB0, 64, 127]])) \<and>
    (case parseMidiData (fst (decodeAll MidiManager_init [[0x90, 60, 100], [0xB0, 64, 127]]))
        [0x81, 60, 0] of (m', es) \<Rightarrow>
       playNotes m' = {||} \<and> sustainNotes m' = {|60|} \<and> synthCalls es = [] \<and>
       60 |\<in>| sustainNotes m'))"
proof -
  let ?d = "[0x81 :: u8, 60, 0]"
  let ?m = "\<lparr>reading = True, sustain = False, playNotes = {|60, 64|}, sustainNotes = {||}\<rparr>"
  let ?fs = "[[0x90, 60, 100], [0xB0 :: u8, 64, 127]]"
  let ?r = "fst (decodeAll MidiManager_init ?fs)"
  have h1: "3 \<le> length ?d" by simp
  have h2: "chanCmd (?d ! 0) = kMIDIChanCmd_NoteOff" by (simp add: chanCmd_def midi_consts)
  have h3: "uint (?d ! 1) |\<in>| playNotes ?m" by simp
  have h4: "\<not> sustain ?m" by simp
  have r: "?r = \<lparr>reading = False, sustain = True, playNotes = {|60|}, sustainNotes = {|60|}\<rparr>"
    by (simp add: decoder_eval)
  have k3: "uint (?d ! 1) |\<in>| playNotes ?r" by (simp only: r) simp
  have k4: "sustain ?r" by (simp only: r) simp
  have up: "case parseMidiData ?m ?d of (m', es) \<Rightarrow>
       playNotes m' = {|64|} \<and> sustainNotes m' = {||} \<and> synthCalls es = [SynthNoteOff 60]"
    using noteOff_rule [OF h1 h2 h3, of "[]" "[]"]
    by (auto split: prod.splits)
  have down: "case parseMidiData ?r ?d of (m', es) \<Rightarrow>
       playNotes m' = {||} \<and> sustainNotes m' = {|60|} \<and> synthCalls es = [] \<and>
       60 |\<in>| sustainNotes m'"
    using noteOff_rule [OF h1 h2 k3, of ?fs "[]"] k4
    by (simp only: r) (auto split: prod.splits)
  from h1 h2 h3 h4 k3 k4 up down show ?thesis by blast
qed

section \<open>Invariants of the reachable states\<close>

text \<open>
  C4. In every state reached from the initial one, by the decoder on any sequence of
  frames or by the polling thread on any sequence of transport answers: if the sustain
  flag is true, the playing notes are a subset of the sustained notes.
\<close>

theorem pedal_down_playing_subset_sustained:
  "(sustain (fst (decodeAll MidiManager_init frames)) \<longrightarrow>
      playNotes (fst (decodeAll MidiManager_init frames))
        |\<subseteq>| sustainNotes (fst (decodeAll MidiManager_init frames))) \<and>
   (sustain (fst (readThreadRoutine MidiManager_init rs)) \<longrightarrow>
      playNotes (fst (readThreadRoutine MidiManager_init rs))
        |\<subseteq>| sustainNotes (fst (readThreadRoutine MidiManager_init rs)))"
  using sustainInv_decodeAll [OF sustainInv_init, of frames]
    sustainInv_readThreadRoutine [OF sustainInv_init, of rs]
  by (simp add: sustainInv_def)

theorem pedal_down_playing_subset_sustained_witness:
  "sustain (fst (decodeAll MidiManager_init
      [[0x90, 60, 100], [0xB0, 64, 127], [0x90, 62, 0], [0x80, 60, 0]])) \<and>
   playNotes (fst (decodeAll MidiManager_init
      [[0x90, 60, 100], [0xB0, 64, 127], [0x90, 62, 0], [0x80, 60, 0]]))
     |\<subseteq>| sustainNotes (fst (decodeAll MidiManager_init
      [[0x90, 60, 100], [0xB0, 64, 127], [0x90, 62, 0], [0x80, 60, 0]])) \<and>
   playNotes (fst (decodeAll MidiManager_init
      [[0x90, 60, 100], [0xB0, 64, 127], [0x90, 62, 0], [0x80, 60, 0]])) = {|62|} \<and>
   sustain (fst (readThreadRoutine MidiManager_init
      [\<lparr>numMessagesReceived = 1, opcode = 1,
         incomingMessage = [0xB0, 64, 127] @ replicate 125 0, numBytesReceived = 3\<rparr>,
       \<lparr>numMessagesReceived = 1, opcode = 1,
         incomingMessage = [0x90, 60, 100] @ replicate 125 0, numBytesReceived = 3\<rparr>])) \<and>
   playNotes (fst (readThreadRoutine MidiManager_init
      [\<lparr>numMessagesReceived = 1, opcode = 1,
         incomingMessage = [0xB0, 64, 127] @ replicate 125 0, numBytesReceived = 3\<rparr>,
       \<lparr>numMessagesReceived = 1, opcode = 1,
         incomingMessage = [0x90, 60, 100] @ replicate 125 0, numBytesReceived = 3\<rparr>]))
     |\<subseteq>| sustainNotes (fst (readThreadRoutine MidiManager_init
      [\<lparr>numMessagesReceived = 1, opcode = 1,
         incomingMessage = [0xB0, 64, 127] @ replicate 125 0, numBytesReceived = 3\<rparr>,
       \<lparr>numMessagesReceived = 1, opcode = 1,
         incomingMessage = [0x90, 60, 100] @ replicate 125 0, numBytesReceived = 3\<rparr>]))"
proof -
  let ?fs = "[[0x90, 60, 100], [0xB0, 64, 127], [0x90, 62, 0], [0x80 :: u8, 60, 0]]"
  let ?rs = "[\<lparr>numMessagesReceived = 1, opcode = 1,
         incomingMessage = [0xB0 :: u8, 64, 127] @ replicate 125 0, numBytesReceived = 3\<rparr>,
       \<lparr>numMessagesReceived = 1, opcode = 1,
         incomingMessage = [0x90, 60, 100] @ replicate 125 0, numBytesReceived = 3\<rparr>]"
  have s: "sustain (fst (decodeAll MidiManager_init ?fs))"
    by (simp add: decoder_eval)
  have p: "playNotes (fst (decodeAll MidiManager_init ?fs)) = {|62|}"
    by (auto simp: decoder_eval)
  have t: "sustain (fst (readThreadRoutine MidiManager_init ?rs))"
    by (simp add: decoder_eval)
  from pedal_down_playing_subset_sustained [of ?fs ?rs] s t
  have "playNotes (fst (decodeAll MidiManager_init ?fs))
          |\<subseteq>| sustainNotes (fst (decodeAll MidiManager_init ?fs)) \<and>
        playNotes (fst (readThreadRoutine MidiManager_init ?rs))
          |\<subseteq>| sustainNotes (fst (readThreadRoutine MidiManager_init ?rs))"
    by blast
  with s p t show ?thesis by blast
qed

text \<open>
  C5. In every state reached from the initial one, by the decoder on any sequence of
  frames or by the polling thread on any sequence of transport answers: if the sustain
  flag is false, the sustained notes are empty, so erasing any note from them (as the
  NoteOff branch does with the pedal up) changes nothing.
\<close>

theorem pedal_up_nothing_sustained:
  "(\<not> sustain (fst (decodeAll MidiManager_init frames)) \<longrightarrow>
      sustainNotes (fst (decodeAll MidiManager_init frames)) = {||} \<and>
      (\<forall>n. sustainNotes (fst (decodeAll MidiManager_init frames)) |-| {|n|}
             = sustainNotes (fst (decodeAll MidiManager_init frames)))) \<and>
   (\<not> sustain (fst (readThreadRoutine MidiManager_init rs)) \<longrightarrow>
      sustainNotes (fst (readThreadRoutine MidiManager_init rs)) = {||} \<and>
      (\<forall>n. sustainNotes (fst (readThreadRoutine MidiManager_init rs)) |-| {|n|}
             = sustainNotes (fst (readThreadRoutine MidiManager_init rs))))"
  using sustainInv_decodeAll [OF sustainInv_init, of frames]
    sustainInv_readThreadRoutine [OF sustainInv_init, of rs]
  by (simp add: sustainInv_def)

theorem pedal_up_nothing_sustained_witness:
  "\<not> sustain (fst (decodeAll MidiManager_init
      [[0x90, 60, 100], [0xB0, 64, 127], [0x80, 60, 0], [0x90, 62, 1], [0xB0, 64, 0]])) \<and>
   sustainNotes (fst (decodeAll MidiManager_init
      [[0x90, 60, 100], [0xB0, 64, 127], [0x80, 60, 0], [0x90, 62, 1], [0xB0, 64, 0]])) = {||} \<and>
   playNotes (fst (decodeAll MidiManager_init
      [[0x90, 60, 100], [0xB0, 64, 127], [0x80, 60, 0], [0x90, 62, 1], [0xB0, 64, 0]])) = {|62|} \<and>
   \<not> sustain (fst (readThreadRoutine MidiManager_init
      [\<lparr>numMessagesReceived = 1, opcode = 1,
         incomingMessage = [0xB0, 64, 127] @ replicate 125 0, numBytesReceived = 3\<rparr>,
       \<lparr>numMessagesReceived = 1, opcode = 1,
         incomingMessage = [0x90, 60, 100] @ replicate 125 0, numBytesReceived = 3\<rparr>,
       \<lparr>numMessagesReceived = 1, opcode = 1,
         incomingMessage = [0xB0, 64, 63] @ replicate 125 0, numBytesReceived = 3\<rparr>])) \<and>
   sustainNotes (fst (readThreadRoutine MidiManager_init
      [\<lparr>numMessagesReceived = 1, opcode = 1,
         incomingMessage = [0xB0, 64, 127] @ replicate 125 0, numBytesReceived = 3\<rparr>,
       \<lparr>numMessagesReceived = 1, opcode = 1,
         incomingMessage = [0x90, 60, 100] @ replicate 125 0, numBytesReceived = 3\<rparr>,
       \<lparr>numMessagesReceived = 1, opcode = 1,
         incomingMessage = [0xB0, 64, 63] @ replicate 125 0, numBytesReceived = 3\<rparr>])) = {||}"
proof -
  let ?fs = "[[0x90, 60, 100], [0xB0, 64, 127], [0x80, 60, 0], [0x90, 62, 1], [0xB0 :: u8, 64, 0]]"
  let ?rs = "[\<lparr>numMessagesReceived = 1, opcode = 1,
         incomingMessage = [0xB0 :: u8, 64, 127] @ replicate 125 0, numBytesReceived = 3\<rparr>,
       \<lparr>numMessagesReceived = 1, opcode = 1,
         incomingMessage = [0x90, 60, 100] @ replicate 125 0, numBytesReceived = 3\<rparr>,
       \<lparr>numMessagesReceived = 1, opcode = 1,
         incomingMessage = [0xB0, 64, 63] @ replicate 125 0, numBytesReceived = 3\<rparr>]"
  have s: "\<not> sustain (fst (decodeAll MidiManager_init ?fs))"
    by (simp add: decoder_eval)
  have p: "playNotes (fst (decodeAll MidiManager_init ?fs)) = {|62|}"
    by (auto simp: decoder_eval)
  have t: "\<not> sustain (fst (readThreadRoutine MidiManager_init ?rs))"
    by (simp add: decoder_eval)
  from pedal_up_nothing_sustained [of ?fs ?rs] s t
  have "sustainNotes (fst (decodeAll MidiManager_init ?fs)) = {||} \<and>
        sustainNotes (fst (readThreadRoutine MidiManager_init ?rs)) = {||}"
    by blast
  with s p t show ?thesis by blast
qed

section \<open>Fatal transport result\<close>

lemma readLoop_stopped: "\<not> reading m \<Longrightarrow> readLoop m rs = (m, [])"
  by (cases rs) simp_all

lemma readStep_fatal:
  "numMessagesReceived r < 0 \<Longrightarrow> readStep m r = (m\<lparr>reading := False\<rparr>, [])"
  by (simp add: readStep_def handsToDecoder_def)

text \<open>
  C6. A negative result of the receive call is terminal. In that iteration the condition
  for calling the decoder is false, the iteration only sets \<^verbatim>\<open>reading\<close> to false and
  makes no call. Whatever the transport answered before (\<open>pre\<close>) and would answer
  afterwards (\<open>rs\<close>), the loop ends in the state it had reached before the failure with
  \<^verbatim>\<open>reading\<close> false, and with exactly the calls made before the failure: the frame of
  the failing call and all later answers are never decoded. From the state it ends in, the
  loop does nothing on any further answers (\<open>later\<close>).
\<close>

theorem fatal_result_terminal:
  assumes neg: "numMessagesReceived r < 0"
  shows "\<not> handsToDecoder r \<and>
         readStep m r = (m\<lparr>reading := False\<rparr>, []) \<and>
         readLoop m (pre @ r # rs) =
           (case readLoop m pre of (m', es) \<Rightarrow> (m'\<lparr>reading := False\<rparr>, es)) \<and>
         \<not> reading (fst (readLoop m (pre @ r # rs))) \<and>
         readLoop (fst (readLoop m (pre @ r # rs))) later = (fst (readLoop m (pre @ r # rs)), [])"
proof -
  have guard: "\<not> handsToDecoder r"
    using neg by (simp add: handsToDecoder_def)
  have loop: "readLoop m (pre @ r # rs) =
      (case readLoop m pre of (m', es) \<Rightarrow> (m'\<lparr>reading := False\<rparr>, es))" for m
  proof (induction pre arbitrary: m)
    case Nil
    show ?case
    proof (cases "reading m")
      case True
      then show ?thesis
        by (simp add: readStep_fatal [OF neg] readLoop_stopped)
    next
      case False
      then have "m\<lparr>reading := False\<rparr> = m" by simp
      with False show ?thesis by simp
    qed
  next
    case (Cons p pre)
    show ?case
    proof (cases "reading m")
      case True
      obtain m1 es1 where step: "readStep m p = (m1, es1)" by (cases "readStep m p")
      obtain m2 es2 where rest: "readLoop m1 pre = (m2, es2)" by (cases "readLoop m1 pre")
      from Cons.IH [of m1] rest
      have "readLoop m1 (pre @ r # rs) = (m2\<lparr>reading := False\<rparr>, es2)" by simp
      with True step rest show ?thesis by simp
    next
      case False
      then have "m\<lparr>reading := False\<rparr> = m" by simp
      with False show ?thesis by simp
    qed
  qed
  have stopped: "\<not> reading (fst (readLoop m (pre @ r # rs)))"
    by (simp add: loop split: prod.splits)
  from guard readStep_fatal [OF neg] loop stopped readLoop_stopped [OF stopped]
  show ?thesis by blast
qed

theorem fatal_result_terminal_witness:
  "numMessagesReceived
     \<lparr>numMessagesReceived = - 1, opcode = 1, incomingMessage = [0x90, 64, 100] @ replicate 125 0,
      numBytesReceived = 3\<rparr> < 0 \<and>
   readLoop (MidiManager_init\<lparr>reading := True\<rparr>)
     ([\<lparr>numMessagesReceived = 1, opcode = 1, incomingMessage = [0x90, 60, 100] @ replicate 125 0,
        numBytesReceived = 3\<rparr>] @
      \<lparr>numMessagesReceived = - 1, opcode = 1, incomingMessage = [0x90, 64, 100] @ replicate 125 0,
        numBytesReceived = 3\<rparr> #
      [\<lparr>numMessagesReceived = 1, opcode = 1, incomingMessage = [0x90, 67, 100] @ replicate 125 0,
        numBytesReceived = 3\<rparr>])
   = (\<lparr>reading = False, sustain = False, playNotes = {|60|}, sustainNotes = {||}\<rparr>,
      [SendToCallback ''Note ON: 60 vel: 100'', SynthNoteOn 60 100])"
proof -
  let ?p = "\<lparr>numMessagesReceived = 1, opcode = 1,
             incomingMessage = [0x90 :: u8, 60, 100] @ replicate 125 0, numBytesReceived = 3\<rparr>"
  let ?r = "\<lparr>numMessagesReceived = - 1, opcode = 1,
             incomingMessage = [0x90 :: u8, 64, 100] @ replicate 125 0, numBytesReceived = 3\<rparr>"
  let ?q = "\<lparr>numMessagesReceived = 1, opcode = 1,
             incomingMessage = [0x90 :: u8, 67, 100] @ replicate 125 0, numBytesReceived = 3\<rparr>"
  let ?m = "MidiManager_init\<lparr>reading := True\<rparr>"
  have neg: "numMessagesReceived ?r < 0" by simp
  have pre: "readLoop ?m [?p] =
      (\<lparr>reading = True, sustain = False, playNotes = {|60|}, sustainNotes = {||}\<rparr>,
       [SendToCallback ''Note ON: 60 vel: 100'', SynthNoteOn 60 100])"
    by (simp add: decoder_eval show_u8_def digit_char_def)
  from fatal_result_terminal [OF neg, of ?m "[?p]" "[?q]" "[]"]
  have "readLoop ?m ([?p] @ ?r # [?q]) =
      (case readLoop ?m [?p] of (m', es) \<Rightarrow> (m'\<lparr>reading := False\<rparr>, es))"
    by blast
  then have "readLoop ?m ([?p] @ ?r # [?q]) =
      (\<lparr>reading = False, sustain = False, playNotes = {|60|}, sustainNotes = {||}\<rparr>,
       [SendToCallback ''Note ON: 60 vel: 100'', SynthNoteOn 60 100])"
    by (simp only: pre prod.case) simp
  with neg show ?thesis by blast
qed

section \<open>The channel bits\<close>

text \<open>
  C8. The low four bits of the status byte do not matter. Two frames of at least three
  bytes that agree on bits 4 to 7 of byte 0 and on bytes 1 and 2 have the same switch
  scrutinee (hence take the same branch), leave the manager in the same state and make
  the same synthesizer calls, from every state.
\<close>

theorem channel_agnostic:
  assumes len1: "3 \<le> length d1" and len2: "3 \<le> length d2"
    and hi: "(d1 ! 0) AND 0xF0 = (d2 ! 0) AND 0xF0"
    and b1: "d1 ! 1 = d2 ! 1"
    and b2: "d1 ! 2 = d2 ! 2"
  shows "chanCmd (d1 ! 0) = chanCmd (d2 ! 0) \<and>
         fst (parseMidiData m d1) = fst (parseMidiData m d2) \<and>
         synthCalls (snd (parseMidiData m d1)) = synthCalls (snd (parseMidiData m d2))"
proof -
  have cmd: "chanCmd (d1 ! 0) = chanCmd (d2 ! 0)"
    using hi by (simp add: chanCmd_def kMIDISysCmdChan_def)
  have "fst (parseMidiData m d1) = fst (parseMidiData m d2) \<and>
        synthCalls (snd (parseMidiData m d1)) = synthCalls (snd (parseMidiData m d2))"
    using len1 len2 cmd b1 b2
    by (simp add: parseMidiData_def u8_and_ff Let_def synthCalls_def)
  with cmd show ?thesis by simp
qed

theorem channel_agnostic_witness:
  "3 \<le> length [0x90 :: u8, 60, 100] \<and> 3 \<le> length [0x9F :: u8, 60, 100] \<and>
   ([0x90 :: u8, 60, 100] ! 0) AND 0xF0 = ([0x9F :: u8, 60, 100] ! 0) AND 0xF0 \<and>
   [0x90 :: u8, 60, 100] ! 1 = [0x9F :: u8, 60, 100] ! 1 \<and>
   [0x90 :: u8, 60, 100] ! 2 = [0x9F :: u8, 60, 100] ! 2 \<and>
   chanCmd ([0x90 :: u8, 60, 100] ! 0) = chanCmd ([0x9F :: u8, 60, 100] ! 0) \<and>
   fst (parseMidiData MidiManager_init [0x90, 60, 100])
     = fst (parseMidiData MidiManager_init [0x9F, 60, 100]) \<and>
   synthCalls (snd (parseMidiData MidiManager_init [0x90, 60, 100]))
     = synthCalls (snd (parseMidiData MidiManager_init [0x9F, 60, 100])) \<and>
   synthCalls (snd (parseMidiData MidiManager_init [0x9F, 60, 100])) = [SynthNoteOn 60 100]"
proof -
  let ?d1 = "[0x90 :: u8, 60, 100]"
  let ?d2 = "[0x9F :: u8, 60, 100]"
  have h1: "3 \<le> length ?d1" by simp
  have h2: "3 \<le> length ?d2" by simp
  have h3: "(?d1 ! 0) AND 0xF0 = (?d2 ! 0) AND 0xF0" by simp
  have h4: "?d1 ! 1 = ?d2 ! 1" by simp
  have h5: "?d1 ! 2 = ?d2 ! 2" by simp
  have v: "synthCalls (snd (parseMidiData MidiManager_init ?d2)) = [SynthNoteOn 60 100]"
    by (simp add: decoder_eval synthCalls_def)
  from channel_agnostic [OF h1 h2 h3 h4 h5, of MidiManager_init] h1 h2 h3 h4 h5 v
  show ?thesis by blast
qed

end
